theory Spec2Isabelle
  imports Main "HOL-Library.Word"
begin

unbundle bit_operations_syntax

section \<open>The file server of DistributedFs (src/fileserver/server.go)\<close>

text \<open>
  The file server keeps a content store, a registry of peer connections and talks to
  its peers over those connections. The store (package \<open>store\<close>), the connections
  (package \<open>p2p\<close>) and the gob codec (Go's \<open>encoding/gob\<close>) are not part of
  \<open>server.go\<close>; the first two are modelled from the interfaces of the
  specification, the codec and the two frame bytes are parameters.

  Every effect of the server on the outside (a store write, a write to or a read from a
  connection, a \<open>CloseStream\<close>, an error-level log line) is appended to a trace, in
  program order, so that statements about the order of effects can be made. The two
  \<open>time.Sleep\<close> calls have no counterpart: the model has no clock. A call that
  waits for ever on a connection has the result \<open>None\<close>.
\<close>

subsection \<open>Data\<close>

type_synonym byte = "8 word"
type_synonym int64 = "64 word"

datatype error =
    ErrStoreNotFound
  | ErrStoreIO
  | ErrPeerNotInList string
  | ErrNotOnDisk string
  | ErrPeerNotInMap string
  | ErrConn string
  | ErrEOF
  | ErrGob

text \<open>
  \<open>Message.Payload\<close> has type \<open>any\<close>: it is nil, a \<open>MessageStoreFile\<close> value,
  a \<open>MessageGetFile\<close> value, or a value of some other dynamic type (named by the
  string).
\<close>

datatype payload =
    Nil
  | is_MessageStoreFile: MessageStoreFile (sf_ID: string) (sf_Key: string) (sf_Size: int64)
  | is_MessageGetFile: MessageGetFile (gf_ID: string) (gf_Key: string)
  | OtherValue string

datatype Message = Message (Payload: payload)

datatype event =
    EvStoreWrite string string "byte list"
  | EvSend string "byte list" bool
  | EvRecv string "byte list"
  | EvCloseStream string
  | EvTransportClose
  | EvLogError

text \<open>
  Modelled from the spec: the Content Store of package \<open>store\<close> (section 6:
  \<open>Has\<close>, \<open>Read\<close>, \<open>Write\<close> on keys scoped by a namespace). \<open>files\<close> is the
  content on disk; \<open>wfault\<close> says for which locations a write fails with an I/O error.
  A read fails exactly when the key is absent (the store's not-found error); a failed
  write leaves the store as it was. \<open>Write\<close> is handed a reader: \<open>wread\<close> says
  how many bytes of the reader, at most, a write to the location has taken when it
  fails (0: it fails before it reads).
\<close>

record ContentStore =
  files :: "(string \<times> string) \<rightharpoonup> byte list"
  wfault :: "string \<times> string \<Rightarrow> bool"
  wread :: "string \<times> string \<Rightarrow> nat"

definition store_Has :: "ContentStore \<Rightarrow> string \<Rightarrow> string \<Rightarrow> bool" where
  "store_Has s ns key = (files s (ns, key) \<noteq> None)"

definition store_Read :: "ContentStore \<Rightarrow> string \<Rightarrow> string \<Rightarrow> error + (int64 \<times> byte list)" where
  "store_Read s ns key =
     (case files s (ns, key) of
        None \<Rightarrow> Inl ErrStoreNotFound
      | Some d \<Rightarrow> Inr (of_nat (length d), d))"

definition store_Write :: "ContentStore \<Rightarrow> string \<Rightarrow> string \<Rightarrow> byte list \<Rightarrow> error + (int64 \<times> ContentStore)" where
  "store_Write s ns key d =
     (if wfault s (ns, key) then Inl ErrStoreIO
      else Inr (of_nat (length d), s\<lparr>files := (files s)((ns, key) \<mapsto> d)\<rparr>))"

text \<open>
  Modelled from the spec: a peer handle of package \<open>p2p\<close> (section 6: \<open>Send\<close>,
  readable and writable byte stream, \<open>CloseStream\<close>). \<open>rx\<close> holds the bytes that the
  remote side has sent and that were not read yet; after them the stream has ended when
  \<open>rx_closed\<close> holds, and otherwise nothing more arrives and a read blocks for ever.
  \<open>tx_left\<close> is the number of writes that the connection still accepts (\<open>None\<close>:
  every write succeeds).
\<close>

record Peer =
  rx :: "byte list"
  rx_closed :: bool
  tx_left :: "nat option"

text \<open>
  \<open>FileServer\<close> with the fields of \<open>FileServerOpts\<close> that \<open>server.go\<close> reads.
  The registry maps a remote address to the state of its connection; a handle is the
  address.
\<close>

record FileServer =
  ID :: string
  store :: ContentStore
  peers :: "string \<rightharpoonup> Peer"
  events :: "event list"

text \<open>
  What \<open>server.go\<close> takes from outside the repository's source: the two frame bytes
  of package \<open>p2p\<close> and the gob codec. \<open>gob_decode\<close> gives the error of
  \<open>Decode(&m)\<close> together with the value that the call leaves in the fresh \<open>m\<close>.
\<close>

record deps =
  IncomingMessage :: byte
  IncomingStream :: byte
  gob_encode :: "Message \<Rightarrow> error + byte list"
  gob_decode :: "byte list \<Rightarrow> error option \<times> Message"

text \<open>
  \<open>NewFileServer\<close>: an empty \<open>ID\<close> becomes \<open>1234\<close>; the store is the one opened on
  the storage root, the registry starts empty.
\<close>

definition NewFileServer :: "string \<Rightarrow> ContentStore \<Rightarrow> FileServer" where
  "NewFileServer opts_ID st =
     \<lparr>ID = (if length opts_ID = 0 then ''1234'' else opts_ID), store = st,
      peers = Map.empty, events = []\<rparr>"

subsection \<open>Connections\<close>

definition emit :: "event \<Rightarrow> FileServer \<Rightarrow> FileServer" where
  "emit e fs = fs\<lparr>events := events fs @ [e]\<rparr>"

text \<open>
  \<open>peer.Send(b)\<close> and \<open>peer.Write(b)\<close>: one write on the connection. The server
  calls the operations of a connection on handles that it has taken from the registry;
  their first case, an address that is not registered, is there to make them total.
\<close>

definition peer_Send :: "FileServer \<Rightarrow> string \<Rightarrow> byte list \<Rightarrow> error option \<times> FileServer" where
  "peer_Send fs a bs =
     (case peers fs a of
        None \<Rightarrow> (Some (ErrConn a), fs)
      | Some p \<Rightarrow>
          (case tx_left p of
             None \<Rightarrow> (None, emit (EvSend a bs True) fs)
           | Some 0 \<Rightarrow> (Some (ErrConn a), emit (EvSend a bs False) fs)
           | Some (Suc n) \<Rightarrow>
               (None, emit (EvSend a bs True)
                        (fs\<lparr>peers := (peers fs)(a \<mapsto> p\<lparr>tx_left := Some n\<rparr>)\<rparr>))))"

text \<open>
  \<open>io.LimitReader(peer, n)\<close> read to its end: \<open>n \<le> 0\<close> reads nothing, otherwise
  the next \<open>n\<close> bytes, or what is left when the stream ends before. \<open>None\<close>: the
  read waits for bytes that never arrive.
\<close>

definition limit_of :: "int64 \<Rightarrow> nat" where
  "limit_of n = (if sint n \<le> 0 then 0 else nat (sint n))"

definition peer_Read :: "FileServer \<Rightarrow> string \<Rightarrow> nat \<Rightarrow> (byte list \<times> FileServer) option" where
  "peer_Read fs a n =
     (case peers fs a of
        None \<Rightarrow> Some ([], fs)
      | Some p \<Rightarrow>
          if n = 0 then Some ([], fs)
          else if n \<le> length (rx p) then
            Some (take n (rx p),
                  emit (EvRecv a (take n (rx p))) (fs\<lparr>peers := (peers fs)(a \<mapsto> p\<lparr>rx := drop n (rx p)\<rparr>)\<rparr>))
          else if rx_closed p then
            Some (rx p, emit (EvRecv a (rx p)) (fs\<lparr>peers := (peers fs)(a \<mapsto> p\<lparr>rx := []\<rparr>)\<rparr>))
          else None)"

text \<open>\<open>binary.LittleEndian\<close> on an \<open>int64\<close>: eight bytes, least significant first.\<close>

definition le64 :: "int64 \<Rightarrow> byte list" where
  "le64 w = map (\<lambda>i. ucast (drop_bit (8 * i) w)) [0..<8]"

definition le64_decode :: "byte list \<Rightarrow> int64" where
  "le64_decode bs = foldr (\<lambda>b acc. ucast b OR push_bit 8 acc) bs 0"

text \<open>
  \<open>binary.Read(peer, binary.LittleEndian, &fileSize)\<close>: eight bytes are read in full;
  when the stream ends before, the bytes that were there are consumed and an error is
  returned.
\<close>

definition peer_ReadInt64 :: "FileServer \<Rightarrow> string \<Rightarrow> ((error + int64) \<times> FileServer) option" where
  "peer_ReadInt64 fs a =
     (case peers fs a of
        None \<Rightarrow> Some (Inl ErrEOF, fs)
      | Some p \<Rightarrow>
          if 8 \<le> length (rx p) then
            Some (Inr (le64_decode (take 8 (rx p))),
                  emit (EvRecv a (take 8 (rx p))) (fs\<lparr>peers := (peers fs)(a \<mapsto> p\<lparr>rx := drop 8 (rx p)\<rparr>)\<rparr>))
          else if rx_closed p then
            Some (Inl ErrEOF, emit (EvRecv a (rx p)) (fs\<lparr>peers := (peers fs)(a \<mapsto> p\<lparr>rx := []\<rparr>)\<rparr>))
          else None)"

definition peer_CloseStream :: "FileServer \<Rightarrow> string \<Rightarrow> FileServer" where
  "peer_CloseStream fs a = emit (EvCloseStream a) fs"

subsection \<open>BroadCast\<close>

text \<open>
  Go does not fix the order in which \<open>range\<close> visits a map, and two \<open>range\<close>
  statements over the same map may differ. Every function with a \<open>range fs.peers\<close>
  takes the order of that visit as a list of addresses; \<open>range_order\<close> says that the
  list enumerates the registry. An address that is not registered is passed over.
\<close>

definition range_order :: "FileServer \<Rightarrow> string list \<Rightarrow> bool" where
  "range_order fs ord = (distinct ord \<and> set ord = dom (peers fs))"

fun BroadCast_range :: "deps \<Rightarrow> byte list \<Rightarrow> FileServer \<Rightarrow> string list \<Rightarrow> error option \<times> FileServer" where
  "BroadCast_range D buf fs [] = (None, fs)"
| "BroadCast_range D buf fs (a # as) =
     (case peers fs a of
        None \<Rightarrow> BroadCast_range D buf fs as
      | Some _ \<Rightarrow>
          (case peer_Send fs a [IncomingMessage D] of
             (Some e, fs1) \<Rightarrow> (Some e, emit EvLogError fs1)
           | (None, fs1) \<Rightarrow>
               (case peer_Send fs1 a buf of
                  (Some e, fs2) \<Rightarrow> (Some e, emit EvLogError fs2)
                | (None, fs2) \<Rightarrow> BroadCast_range D buf fs2 as)))"

definition BroadCast :: "deps \<Rightarrow> FileServer \<Rightarrow> string list \<Rightarrow> Message \<Rightarrow> error option \<times> FileServer" where
  "BroadCast D fs ord msg =
     (case gob_encode D msg of
        Inl e \<Rightarrow> (Some e, fs)
      | Inr buf \<Rightarrow> BroadCast_range D buf fs ord)"

subsection \<open>Store\<close>

text \<open>
  \<open>io.MultiWriter(peers...).Write(b)\<close>: the writers in turn, stopping at the first
  that fails.
\<close>

fun MultiWriter_Write :: "FileServer \<Rightarrow> string list \<Rightarrow> byte list \<Rightarrow> error option \<times> FileServer" where
  "MultiWriter_Write fs [] bs = (None, fs)"
| "MultiWriter_Write fs (a # as) bs =
     (case peer_Send fs a bs of
        (Some e, fs1) \<Rightarrow> (Some e, fs1)
      | (None, fs1) \<Rightarrow> MultiWriter_Write fs1 as bs)"

text \<open>
  \<open>io.Copy(mw, fileBuffer)\<close>: a \<open>bytes.Buffer\<close> writes itself with one \<open>Write\<close>
  of all its bytes, and with none when it is empty.
\<close>

definition Copy_buffer :: "FileServer \<Rightarrow> string list \<Rightarrow> byte list \<Rightarrow> error option \<times> FileServer" where
  "Copy_buffer fs ws buf = (if buf = [] then (None, fs) else MultiWriter_Write fs ws buf)"

text \<open>
  \<open>Store(key, r)\<close>, with the reader given by the bytes \<open>r\<close> that it delivers.
  \<open>ord1\<close> is the order of the range in \<open>BroadCast\<close>, \<open>ord2\<close> that of the range
  collecting the writers.
\<close>

definition Store :: "deps \<Rightarrow> FileServer \<Rightarrow> string list \<Rightarrow> string list \<Rightarrow> string \<Rightarrow> byte list \<Rightarrow> error option \<times> FileServer" where
  "Store D fs ord1 ord2 key r =
     (case store_Write (store fs) (ID fs) key r of
        Inl e \<Rightarrow> (Some e, fs)
      | Inr (sz, st) \<Rightarrow>
          (let fs1 = emit (EvStoreWrite (ID fs) key r) (fs\<lparr>store := st\<rparr>);
               msg = Message (MessageStoreFile (ID fs) key sz)
           in case BroadCast D fs1 ord1 msg of
                (Some e, fs2) \<Rightarrow> (Some e, fs2)
              | (None, fs2) \<Rightarrow>
                  (let ws = filter (\<lambda>a. peers fs2 a \<noteq> None) ord2;
                       fs3 = snd (MultiWriter_Write fs2 ws [IncomingStream D])
                   in case Copy_buffer fs3 ws r of
                        (Some e, fs4) \<Rightarrow> (Some e, emit EvLogError fs4)
                      | (None, fs4) \<Rightarrow> (None, fs4))))"

subsection \<open>The handlers of the control loop\<close>

text \<open>
  \<open>fs.store.Write(ns, key, io.LimitReader(peer, size))\<close>: the store is handed the
  bounded reader of the connection. A write that the store refuses has taken no more
  than \<open>wread\<close> bytes of the reader (none when it fails before it reads) and returns
  the error. A write that the store accepts copies the reader to its end and puts what
  it has read under the key.
\<close>

definition store_Write_from :: "FileServer \<Rightarrow> string \<Rightarrow> string \<Rightarrow> string \<Rightarrow> int64 \<Rightarrow> ((error + int64) \<times> FileServer) option" where
  "store_Write_from fs ns key a sz =
     (if wfault (store fs) (ns, key) then
        (case peer_Read fs a (min (wread (store fs) (ns, key)) (limit_of sz)) of
           None \<Rightarrow> None
         | Some (d, fs1) \<Rightarrow> Some (Inl ErrStoreIO, fs1))
      else
        (case peer_Read fs a (limit_of sz) of
           None \<Rightarrow> None
         | Some (d, fs1) \<Rightarrow>
             (case store_Write (store fs1) ns key d of
                Inl e \<Rightarrow> Some (Inl e, fs1)
              | Inr (n, st) \<Rightarrow> Some (Inr n, emit (EvStoreWrite ns key d) (fs1\<lparr>store := st\<rparr>)))))"

definition handleMessageStoreFile :: "FileServer \<Rightarrow> string \<Rightarrow> string \<Rightarrow> string \<Rightarrow> int64 \<Rightarrow> (error option \<times> FileServer) option" where
  "handleMessageStoreFile fs from msg_ID msg_Key msg_Size =
     (case peers fs from of
        None \<Rightarrow> Some (Some (ErrPeerNotInList from), fs)
      | Some _ \<Rightarrow>
          (case store_Write_from fs msg_ID msg_Key from msg_Size of
             None \<Rightarrow> None
           | Some (Inl e, fs1) \<Rightarrow> Some (Some e, fs1)
           | Some (Inr n, fs1) \<Rightarrow> Some (None, peer_CloseStream fs1 from)))"

text \<open>
  \<open>io.Copy(peer, r)\<close> of the file read from the store: the file is read through a
  buffer of 32 KiB, every read filling the buffer until the file ends, and each chunk is
  written with one \<open>peer.Write\<close>; the copy stops at the first write that fails.
  Nothing is written for an empty file.
\<close>

function chunks :: "nat \<Rightarrow> 'a list \<Rightarrow> 'a list list" where
  "chunks n xs = (if n = 0 \<or> xs = [] then [] else take n xs # chunks n (drop n xs))"
  by pat_completeness auto
termination
  by (relation "measure (\<lambda>(n, xs). length xs)") auto

declare chunks.simps [simp del]

fun Copy_chunks :: "FileServer \<Rightarrow> string \<Rightarrow> byte list list \<Rightarrow> error option \<times> FileServer" where
  "Copy_chunks fs a [] = (None, fs)"
| "Copy_chunks fs a (c # cs) =
     (case peer_Send fs a c of
        (Some e, fs1) \<Rightarrow> (Some e, fs1)
      | (None, fs1) \<Rightarrow> Copy_chunks fs1 a cs)"

definition Copy_file :: "FileServer \<Rightarrow> string \<Rightarrow> byte list \<Rightarrow> error option \<times> FileServer" where
  "Copy_file fs a r = Copy_chunks fs a (chunks 32768 r)"

definition handleMessageGetFile :: "deps \<Rightarrow> FileServer \<Rightarrow> string \<Rightarrow> string \<Rightarrow> string \<Rightarrow> error option \<times> FileServer" where
  "handleMessageGetFile D s from msg_ID msg_Key =
     (if \<not> store_Has (store s) msg_ID msg_Key then (Some (ErrNotOnDisk msg_Key), s)
      else case store_Read (store s) msg_ID msg_Key of
             Inl e \<Rightarrow> (Some e, s)
           | Inr (fileSize, r) \<Rightarrow>
               (case peers s from of
                  None \<Rightarrow> (Some (ErrPeerNotInMap from), s)
                | Some _ \<Rightarrow>
                    (let s1 = snd (peer_Send s from [IncomingStream D]);
                         s2 = snd (peer_Send s1 from (le64 fileSize))
                     in Copy_file s2 from r)))"

fun handleMessage :: "deps \<Rightarrow> FileServer \<Rightarrow> string \<Rightarrow> Message \<Rightarrow> (error option \<times> FileServer) option" where
  "handleMessage D fs from (Message (MessageStoreFile i k n)) = handleMessageStoreFile fs from i k n"
| "handleMessage D fs from (Message (MessageGetFile i k)) = Some (handleMessageGetFile D fs from i k)"
| "handleMessage D fs from (Message Nil) = Some (None, fs)"
| "handleMessage D fs from (Message (OtherValue t)) = Some (None, fs)"

subsection \<open>ReadLoop\<close>

text \<open>
  What the \<open>select\<close> of the loop receives: a frame of the transport (sender and
  payload) or the quit signal. One frame is decoded, a decoding error is logged, and
  \<open>handleMessage\<close> is called with the message in either case.
\<close>

datatype input = Frame string "byte list" | Quit

definition ReadLoop_frame :: "deps \<Rightarrow> FileServer \<Rightarrow> string \<Rightarrow> byte list \<Rightarrow> FileServer option" where
  "ReadLoop_frame D fs from bs =
     (case gob_decode D bs of
        (err, m) \<Rightarrow>
          (let fs1 = (if err \<noteq> None then emit EvLogError fs else fs)
           in case handleMessage D fs1 from m of
                None \<Rightarrow> None
              | Some (Some e, fs2) \<Rightarrow> Some (emit EvLogError fs2)
              | Some (None, fs2) \<Rightarrow> Some fs2))"

text \<open>
  The loop over the inputs that arrive. The result says whether the loop has returned
  (on \<open>Quit\<close>, closing the transport) or still waits for input; \<open>None\<close>: a handler
  blocks for ever.
\<close>

fun ReadLoop :: "deps \<Rightarrow> FileServer \<Rightarrow> input list \<Rightarrow> (bool \<times> FileServer) option" where
  "ReadLoop D fs [] = Some (False, fs)"
| "ReadLoop D fs (Quit # ins) = Some (True, emit EvTransportClose fs)"
| "ReadLoop D fs (Frame from bs # ins) =
     (case ReadLoop_frame D fs from bs of
        None \<Rightarrow> None
      | Some fs1 \<Rightarrow> ReadLoop D fs1 ins)"

subsection \<open>Get\<close>

text \<open>
  The range of \<open>Get\<close> over the peers (lines 99 to 110): the size is read, its error
  dropped (\<open>fileSize\<close> keeps its initial 0), then the bounded read goes into the store,
  a failing write is logged, and the stream is closed.
\<close>

fun Get_range :: "FileServer \<Rightarrow> string \<Rightarrow> string list \<Rightarrow> FileServer option" where
  "Get_range fs key [] = Some fs"
| "Get_range fs key (a # as) =
     (case peers fs a of
        None \<Rightarrow> Get_range fs key as
      | Some _ \<Rightarrow>
          (case peer_ReadInt64 fs a of
             None \<Rightarrow> None
           | Some (r, fs1) \<Rightarrow>
               (let fileSize = (case r of Inl _ \<Rightarrow> 0 | Inr v \<Rightarrow> v)
                in case store_Write_from fs1 (ID fs1) key a fileSize of
                     None \<Rightarrow> None
                   | Some (Inl e, fs2) \<Rightarrow> Get_range (peer_CloseStream (emit EvLogError fs2) a) key as
                   | Some (Inr n, fs2) \<Rightarrow> Get_range (peer_CloseStream fs2 a) key as)))"

definition Get :: "deps \<Rightarrow> FileServer \<Rightarrow> string list \<Rightarrow> string list \<Rightarrow> string \<Rightarrow> ((error + byte list) \<times> FileServer) option" where
  "Get D fs ord1 ord2 key =
     (if store_Has (store fs) (ID fs) key then
        (case store_Read (store fs) (ID fs) key of
           Inl e \<Rightarrow> Some (Inl e, fs)
         | Inr (n, r) \<Rightarrow> Some (Inr r, fs))
      else
        (case BroadCast D fs ord1 (Message (MessageGetFile (ID fs) key)) of
           (Some e, fs1) \<Rightarrow> Some (Inl e, fs1)
         | (None, fs1) \<Rightarrow>
             (case Get_range fs1 key ord2 of
                None \<Rightarrow> None
              | Some fs2 \<Rightarrow>
                  (case store_Read (store fs2) (ID fs2) key of
                     Inl e \<Rightarrow> Some (Inl e, emit EvLogError fs2)
                   | Inr (n, r) \<Rightarrow> Some (Inr r, fs2)))))"

subsection \<open>OnPeer\<close>

definition OnPeer :: "FileServer \<Rightarrow> string \<Rightarrow> Peer \<Rightarrow> error option \<times> FileServer" where
  "OnPeer s a p = (None, s\<lparr>peers := (peers s)(a \<mapsto> p)\<rparr>)"

subsection \<open>Predicates and configurations for the statements\<close>

text \<open>
  \<open>accepts fs a k\<close>: the peer \<open>a\<close> is registered and its connection takes \<open>k\<close>
  more writes. \<open>net_step fs fs'\<close>: from \<open>fs\<close> to \<open>fs'\<close> the identity, the store and
  the set of registered addresses stay, and the trace is extended.
\<close>

definition accepts :: "FileServer \<Rightarrow> string \<Rightarrow> nat \<Rightarrow> bool" where
  "accepts fs a k = (case peers fs a of None \<Rightarrow> False | Some p \<Rightarrow> (case tx_left p of None \<Rightarrow> True | Some n \<Rightarrow> k \<le> n))"

definition net_step :: "FileServer \<Rightarrow> FileServer \<Rightarrow> bool" where
  "net_step fs fs' = (ID fs' = ID fs \<and> store fs' = store fs \<and> dom (peers fs') = dom (peers fs) \<and> (\<exists>evs. events fs' = events fs @ evs))"

text \<open>The peers whose stream was closed, in the order of the calls in a trace.\<close>

fun closed_streams :: "event list \<Rightarrow> string list" where
  "closed_streams [] = []"
| "closed_streams (EvCloseStream a # es) = a # closed_streams es"
| "closed_streams (e # es) = closed_streams es"

text \<open>
  A codec, a disk and servers to evaluate the functions on. The codec stands for gob at
  three frames: the frame \<open>[1]\<close> for the encoding of a message with a
  \<open>MessageStoreFile\<close> payload in which a field number out of range follows the
  payload, so that \<open>Decode\<close> reports an error after it has assigned the payload; the
  frame \<open>[2]\<close> for the encoding of a \<open>MessageGetFile\<close> message; every other frame
  for bytes that gob rejects at once. The disk refuses writes to the key \<open>bad\<close>,
  before it reads.
\<close>

definition D0 :: deps where
  "D0 = \<lparr>IncomingMessage = 1, IncomingStream = 2,
          gob_encode = (\<lambda>m. Inr [7]),
          gob_decode = (\<lambda>bs.
            if bs = [1] then (Some ErrGob, Message (MessageStoreFile ''n'' ''k'' 2))
            else if bs = [2] then (None, Message (MessageGetFile ''n'' ''k''))
            else (Some ErrGob, Message Nil))\<rparr>"

definition disk0 :: ContentStore where
  "disk0 = \<lparr>files = Map.empty, wfault = (\<lambda>loc. loc = (''1234'', ''bad'')),
             wread = (\<lambda>loc. 0)\<rparr>"

definition node0 :: "(string \<rightharpoonup> Peer) \<Rightarrow> FileServer" where
  "node0 ps = \<lparr>ID = ''1234'', store = disk0, peers = ps, events = []\<rparr>"

definition conn :: "byte list \<Rightarrow> bool \<Rightarrow> nat option \<Rightarrow> Peer" where
  "conn bs c n = \<lparr>rx = bs, rx_closed = c, tx_left = n\<rparr>"

section \<open>Properties\<close>

lemma net_step_refl: "net_step fs fs"
  by (simp add: net_step_def)

lemma net_step_trans: "net_step fs fs1 \<Longrightarrow> net_step fs1 fs2 \<Longrightarrow> net_step fs fs2"
  by (auto simp: net_step_def)

lemma net_step_emit: "net_step fs (emit e fs)"
  by (simp add: net_step_def emit_def)

lemma peer_Send_net_step: "net_step fs (snd (peer_Send fs a bs))"
  by (auto simp: peer_Send_def net_step_def emit_def split: option.splits nat.splits)

lemma BroadCast_range_net_step: "net_step fs (snd (BroadCast_range D buf fs as))"
proof (induction as arbitrary: fs)
  case Nil
  show ?case by (simp add: net_step_refl)
next
  case (Cons a as)
  show ?case
  proof (cases "peers fs a")
    case None
    then show ?thesis using Cons.IH [of fs] by simp
  next
    case (Some p)
    obtain r1 fs1 where s1: "peer_Send fs a [IncomingMessage D] = (r1, fs1)" by force
    obtain r2 fs2 where s2: "peer_Send fs1 a buf = (r2, fs2)" by force
    have n1: "net_step fs fs1" using peer_Send_net_step [of fs a "[IncomingMessage D]"] s1 by simp
    have n2: "net_step fs1 fs2" using peer_Send_net_step [of fs1 a buf] s2 by simp
    show ?thesis
    proof (cases r1)
      case (Some e)
      then show ?thesis using \<open>peers fs a = Some p\<close> s1 n1
        by (simp add: net_step_trans [OF n1 net_step_emit])
    next
      case None
      note r1 = this
      show ?thesis
      proof (cases r2)
        case (Some e)
        then show ?thesis using \<open>peers fs a = Some p\<close> s1 s2 r1
          by (simp add: net_step_trans [OF net_step_trans [OF n1 n2] net_step_emit])
      next
        case None
        then show ?thesis using \<open>peers fs a = Some p\<close> s1 s2 r1 Cons.IH [of fs2]
          by (simp add: net_step_trans [OF net_step_trans [OF n1 n2]])
      qed
    qed
  qed
qed

lemma BroadCast_net_step: "net_step fs (snd (BroadCast D fs ord msg))"
  by (simp add: BroadCast_def net_step_refl BroadCast_range_net_step split: sum.splits)

lemma MultiWriter_Write_net_step: "net_step fs (snd (MultiWriter_Write fs ws bs))"
proof (induction ws arbitrary: fs)
  case Nil
  show ?case by (simp add: net_step_refl)
next
  case (Cons a ws)
  obtain r1 fs1 where s1: "peer_Send fs a bs = (r1, fs1)" by force
  have n1: "net_step fs fs1" using peer_Send_net_step [of fs a bs] s1 by simp
  show ?case using s1 n1 Cons.IH [of fs1]
    by (cases r1) (auto intro: net_step_trans)
qed

lemma Copy_buffer_net_step: "net_step fs (snd (Copy_buffer fs ws bs))"
  by (simp add: Copy_buffer_def net_step_refl MultiWriter_Write_net_step)

lemma Store_wfault:
  "wfault (store fs) (ID fs, key) \<Longrightarrow> Store D fs ord1 ord2 key r = (Some ErrStoreIO, fs)"
  by (simp add: Store_def store_Write_def)

lemma Store_after_write:
  assumes "\<not> wfault (store fs) (ID fs, key)"
  shows "\<exists>fs1. fs1 = emit (EvStoreWrite (ID fs) key r) (fs\<lparr>store := (store fs)\<lparr>files := (files (store fs))((ID fs, key) \<mapsto> r)\<rparr>\<rparr>)
           \<and> net_step fs1 (snd (Store D fs ord1 ord2 key r))"
proof -
  define fs1 where "fs1 = emit (EvStoreWrite (ID fs) key r) (fs\<lparr>store := (store fs)\<lparr>files := (files (store fs))((ID fs, key) \<mapsto> r)\<rparr>\<rparr>)"
  define msg where "msg = Message (MessageStoreFile (ID fs) key (of_nat (length r)))"
  obtain r2 fs2 where b: "BroadCast D fs1 ord1 msg = (r2, fs2)" by force
  have n2: "net_step fs1 fs2" using BroadCast_net_step [of fs1 D ord1 msg] b by simp
  define ws where "ws = filter (\<lambda>a. peers fs2 a \<noteq> None) ord2"
  define fs3 where "fs3 = snd (MultiWriter_Write fs2 ws [IncomingStream D])"
  have n3: "net_step fs2 fs3" unfolding fs3_def by (rule MultiWriter_Write_net_step)
  obtain r4 fs4 where c: "Copy_buffer fs3 ws r = (r4, fs4)" by force
  have n4: "net_step fs3 fs4" using Copy_buffer_net_step [of fs3 ws r] c by simp
  have n14: "net_step fs1 fs4" using n2 n3 n4 by (blast intro: net_step_trans)
  have S: "Store D fs ord1 ord2 key r =
        (case r2 of Some e \<Rightarrow> (Some e, fs2)
         | None \<Rightarrow> (case r4 of Some e \<Rightarrow> (Some e, emit EvLogError fs4) | None \<Rightarrow> (None, fs4)))"
    using assms b c unfolding fs3_def ws_def fs1_def msg_def
    by (simp add: Store_def store_Write_def Let_def split: option.splits)
  have "net_step fs1 (snd (Store D fs ord1 ord2 key r))"
    unfolding S using n2 n14 net_step_trans [OF n14 net_step_emit]
    by (simp split: option.splits)
  then show ?thesis unfolding fs1_def by blast
qed

text \<open>
  Claim C1. When \<open>Store(key, r)\<close> returns no error, the store has the key under the
  server's \<open>ID\<close> and a read of it gives the bytes of \<open>r\<close> and their number. With
  no peer registered, \<open>Store\<close> returns no error whenever the local write does not fail
  (and gob serialises the envelope). The local write comes before every write on a
  connection: when it fails, \<open>Store\<close> returns its error with the server untouched,
  and otherwise the first effect of \<open>Store\<close> is the store write, whatever follows.
\<close>

theorem Store_durable:
  "(Store D fs ord1 ord2 key r = (None, fs') \<longrightarrow>
      ID fs' = ID fs \<and> store_Has (store fs') (ID fs) key \<and>
      store_Read (store fs') (ID fs) key = Inr (of_nat (length r), r))
   \<and> (peers fs = Map.empty \<and> \<not> wfault (store fs) (ID fs, key) \<and>
        gob_encode D (Message (MessageStoreFile (ID fs) key (of_nat (length r)))) = Inr buf \<longrightarrow>
      fst (Store D fs ord1 ord2 key r) = None)
   \<and> (wfault (store fs) (ID fs, key) \<longrightarrow> Store D fs ord1 ord2 key r = (Some ErrStoreIO, fs))
   \<and> (\<not> wfault (store fs) (ID fs, key) \<longrightarrow>
        (\<exists>evs. events (snd (Store D fs ord1 ord2 key r)) = events fs @ EvStoreWrite (ID fs) key r # evs))"
proof -
  have durable: "ID fs' = ID fs \<and> store_Has (store fs') (ID fs) key \<and>
      store_Read (store fs') (ID fs) key = Inr (of_nat (length r), r)"
    if ok: "Store D fs ord1 ord2 key r = (None, fs')"
  proof -
    have nw: "\<not> wfault (store fs) (ID fs, key)"
      using ok Store_wfault [of fs key D ord1 ord2 r] by auto
    from Store_after_write [OF nw, of r D ord1 ord2] ok
    have "net_step (emit (EvStoreWrite (ID fs) key r) (fs\<lparr>store := (store fs)\<lparr>files := (files (store fs))((ID fs, key) \<mapsto> r)\<rparr>\<rparr>)) fs'"
      by simp
    then show ?thesis
      by (simp add: net_step_def emit_def store_Has_def store_Read_def)
  qed
  have no_peers: "fst (Store D fs ord1 ord2 key r) = None"
    if a: "peers fs = Map.empty \<and> \<not> wfault (store fs) (ID fs, key) \<and>
        gob_encode D (Message (MessageStoreFile (ID fs) key (of_nat (length r)))) = Inr buf"
  proof -
    have br: "\<And>g. peers g = Map.empty \<Longrightarrow> BroadCast_range D buf g ord1 = (None, g)"
      by (induction ord1) simp_all
    show ?thesis
      using a by (simp add: Store_def store_Write_def BroadCast_def br emit_def Copy_buffer_def Let_def)
  qed
  have first: "\<exists>evs. events (snd (Store D fs ord1 ord2 key r)) = events fs @ EvStoreWrite (ID fs) key r # evs"
    if nw: "\<not> wfault (store fs) (ID fs, key)"
    using Store_after_write [OF nw, of r D ord1 ord2]
    by (auto simp: net_step_def emit_def)
  show ?thesis
    using durable no_peers first Store_wfault [of fs key D ord1 ord2 r] by blast
qed

text \<open>
  Claim C2. When the store has the key under the server's \<open>ID\<close>, \<open>Get\<close> returns
  the stored bytes and leaves the server as it was: the trace gets no entry (nothing is
  sent, no connection is read) and no connection changes.
\<close>

theorem Get_local_hit:
  "store_Has (store fs) (ID fs) key \<Longrightarrow>
     \<exists>d. files (store fs) (ID fs, key) = Some d \<and> Get D fs ord1 ord2 key = Some (Inr d, fs)"
  by (auto simp: Get_def store_Has_def store_Read_def)

lemmas eval_defs = D0_def disk0_def node0_def conn_def Store_def store_Write_def store_Read_def store_Has_def
  BroadCast_def peer_Send_def emit_def Copy_buffer_def Get_def Let_def

text \<open>
  The statement of C1 at a server with one healthy peer, at a server without peers, and
  at a key that the disk refuses.
\<close>

theorem Store_durable_witness:
  "fst (Store D0 (node0 [''p'' \<mapsto> conn [] False None]) [''p''] [''p''] ''k'' [1, 2]) = None
   \<and> store_Read (store (snd (Store D0 (node0 [''p'' \<mapsto> conn [] False None]) [''p''] [''p''] ''k'' [1, 2]))) ''1234'' ''k'' = Inr (2, [1, 2])
   \<and> fst (Store D0 (node0 Map.empty) [] [] ''k'' [1, 2]) = None
   \<and> Store D0 (node0 Map.empty) [] [] ''bad'' [1, 2] = (Some ErrStoreIO, node0 Map.empty)
   \<and> (\<exists>evs. events (snd (Store D0 (node0 [''p'' \<mapsto> conn [] False None]) [''p''] [''p''] ''k'' [1, 2]))
       = EvStoreWrite ''1234'' ''k'' [1, 2] # evs)"
proof -
  let ?fs = "node0 [''p'' \<mapsto> conn [] False None]"
  let ?r = "Store D0 ?fs [''p''] [''p''] ''k'' [1, 2]"
  have ok: "?r = (None, snd ?r)"
    by (simp add: eval_defs)
  have enc: "gob_encode D0 (Message (MessageStoreFile (ID (node0 Map.empty)) ''k'' (of_nat (length [1, 2 :: byte])))) = Inr [7]"
    by (simp add: D0_def)
  have h0: "peers (node0 Map.empty) = Map.empty" "\<not> wfault (store (node0 Map.empty)) (ID (node0 Map.empty), ''k'')"
    "wfault (store (node0 Map.empty)) (ID (node0 Map.empty), ''bad'')"
    "\<not> wfault (store ?fs) (ID ?fs, ''k'')" "ID ?fs = ''1234''" "events ?fs = []"
    by (simp_all add: node0_def disk0_def)
  have c1: "fst ?r = None" using ok by (metis fst_conv)
  have c2: "store_Read (store (snd ?r)) (ID ?fs) ''k'' = Inr (of_nat (length [1, 2 :: byte]), [1, 2])"
    using Store_durable [of D0 ?fs "[''p'']" "[''p'']" "''k''" "[1, 2]" "snd ?r" "[7]"] ok by blast
  have c3: "fst (Store D0 (node0 Map.empty) [] [] ''k'' [1, 2]) = None"
    using Store_durable [of D0 "node0 Map.empty" "[]" "[]" "''k''" "[1, 2]" "node0 Map.empty" "[7]"] enc h0(1,2) by blast
  have c4: "Store D0 (node0 Map.empty) [] [] ''bad'' [1, 2] = (Some ErrStoreIO, node0 Map.empty)"
    using Store_durable [of D0 "node0 Map.empty" "[]" "[]" "''bad''" "[1, 2]" "node0 Map.empty" "[7]"] h0(3) by blast
  have c5: "\<exists>evs. events (snd ?r) = events ?fs @ EvStoreWrite (ID ?fs) ''k'' [1, 2] # evs"
    using Store_durable [of D0 ?fs "[''p'']" "[''p'']" "''k''" "[1, 2]" "snd ?r" "[7]"] h0(4) by blast
  show ?thesis
    using c1 c2 c3 c4 c5 by (simp add: h0(5,6))
qed

text \<open>The statement of C2 at a server that holds two bytes under the key.\<close>

theorem Get_local_hit_witness:
  "Get D0 ((node0 Map.empty)\<lparr>store := disk0\<lparr>files := [(''1234'', ''k'') \<mapsto> [9, 8]]\<rparr>\<rparr>) [] [] ''k''
     = Some (Inr [9, 8], (node0 Map.empty)\<lparr>store := disk0\<lparr>files := [(''1234'', ''k'') \<mapsto> [9, 8]]\<rparr>\<rparr>)"
proof -
  let ?fs = "(node0 Map.empty)\<lparr>store := disk0\<lparr>files := [(''1234'', ''k'') \<mapsto> [9, 8]]\<rparr>\<rparr>"
  have h: "store_Has (store ?fs) (ID ?fs) ''k''"
    by (simp add: store_Has_def node0_def)
  from Get_local_hit [OF h, of D0 "[]" "[]"] show ?thesis
    by (simp add: node0_def)
qed

subsection \<open>BroadCast\<close>

lemma peer_Send_accepts:
  assumes "accepts fs a (Suc k)"
  shows "\<exists>fs'. peer_Send fs a bs = (None, fs') \<and> events fs' = events fs @ [EvSend a bs True]
           \<and> store fs' = store fs \<and> ID fs' = ID fs \<and> accepts fs' a k
           \<and> (\<forall>b. b \<noteq> a \<longrightarrow> peers fs' b = peers fs b)"
proof -
  from assms obtain p where p: "peers fs a = Some p"
    by (auto simp: accepts_def split: option.splits)
  show ?thesis
  proof (cases "tx_left p")
    case None
    then show ?thesis using p by (simp add: peer_Send_def emit_def accepts_def)
  next
    case (Some n)
    then obtain m where "n = Suc m" "k \<le> m"
      using assms p by (cases n) (auto simp: accepts_def)
    then show ?thesis using p Some by (simp add: peer_Send_def emit_def accepts_def)
  qed
qed

lemma accepts_registered: "accepts fs a k \<Longrightarrow> peers fs a \<noteq> None"
  by (auto simp: accepts_def split: option.splits)

lemma BroadCast_range_step_ok:
  assumes "accepts fs a 2"
  shows "\<exists>fs'. BroadCast_range D buf fs (a # as) = BroadCast_range D buf fs' as
           \<and> events fs' = events fs @ [EvSend a [IncomingMessage D] True, EvSend a buf True]
           \<and> store fs' = store fs \<and> ID fs' = ID fs
           \<and> (\<forall>b. b \<noteq> a \<longrightarrow> peers fs' b = peers fs b)"
proof -
  have a2: "accepts fs a (Suc 1)" using assms by (simp add: numeral_2_eq_2)
  from peer_Send_accepts [OF a2, of "[IncomingMessage D]"] obtain fs1 where
    s1: "peer_Send fs a [IncomingMessage D] = (None, fs1)"
    and e1: "events fs1 = events fs @ [EvSend a [IncomingMessage D] True]"
    and k1: "store fs1 = store fs" "ID fs1 = ID fs"
    and a1: "accepts fs1 a 1"
    and o1: "\<forall>b. b \<noteq> a \<longrightarrow> peers fs1 b = peers fs b"
    by blast
  have a1': "accepts fs1 a (Suc 0)" using a1 by simp
  from peer_Send_accepts [OF a1', of buf] obtain fs2 where
    s2: "peer_Send fs1 a buf = (None, fs2)"
    and e2: "events fs2 = events fs1 @ [EvSend a buf True]"
    and k2: "store fs2 = store fs1" "ID fs2 = ID fs1"
    and o2: "\<forall>b. b \<noteq> a \<longrightarrow> peers fs2 b = peers fs1 b"
    by blast
  have reg: "peers fs a \<noteq> None" using assms by (rule accepts_registered)
  have st: "BroadCast_range D buf fs (a # as) = BroadCast_range D buf fs2 as"
    using reg s1 s2 by auto
  have e: "events fs2 = events fs @ [EvSend a [IncomingMessage D] True, EvSend a buf True]"
    using e1 e2 by simp
  have k: "store fs2 = store fs" "ID fs2 = ID fs" using k1 k2 by simp_all
  have o: "\<forall>b. b \<noteq> a \<longrightarrow> peers fs2 b = peers fs b" using o1 o2 by simp
  show ?thesis using st e k o by blast
qed

lemma BroadCast_range_ok:
  assumes "distinct as" and "\<forall>a\<in>set as. accepts fs a 2"
  shows "\<exists>fs'. BroadCast_range D buf fs as = (None, fs')
           \<and> events fs' = events fs @ concat (map (\<lambda>a. [EvSend a [IncomingMessage D] True, EvSend a buf True]) as)
           \<and> store fs' = store fs \<and> ID fs' = ID fs
           \<and> (\<forall>b. b \<notin> set as \<longrightarrow> peers fs' b = peers fs b)"
  using assms
proof (induction as arbitrary: fs)
  case Nil
  then show ?case by simp
next
  case (Cons a as)
  have "accepts fs a 2" using Cons.prems by simp
  from BroadCast_range_step_ok [OF this, of D buf as] obtain fs1 where
    st: "BroadCast_range D buf fs (a # as) = BroadCast_range D buf fs1 as"
    and e1: "events fs1 = events fs @ [EvSend a [IncomingMessage D] True, EvSend a buf True]"
    and k1: "store fs1 = store fs" "ID fs1 = ID fs"
    and o1: "\<forall>b. b \<noteq> a \<longrightarrow> peers fs1 b = peers fs b"
    by blast
  have d: "distinct as" and na: "a \<notin> set as" using Cons.prems by simp_all
  have acc: "\<forall>b\<in>set as. accepts fs1 b 2"
  proof
    fix b assume b: "b \<in> set as"
    then have "b \<noteq> a" using na by auto
    then have "peers fs1 b = peers fs b" using o1 by simp
    then show "accepts fs1 b 2" using Cons.prems(2) b by (simp add: accepts_def)
  qed
  from Cons.IH [OF d acc] obtain fs' where
    r: "BroadCast_range D buf fs1 as = (None, fs')"
    and e: "events fs' = events fs1 @ concat (map (\<lambda>a. [EvSend a [IncomingMessage D] True, EvSend a buf True]) as)"
    and k: "store fs' = store fs1" "ID fs' = ID fs1"
    and o: "\<forall>b. b \<notin> set as \<longrightarrow> peers fs' b = peers fs1 b"
    by blast
  have r': "BroadCast_range D buf fs (a # as) = (None, fs')"
    by (simp only: st r)
  have e': "events fs' = events fs @ concat (map (\<lambda>a. [EvSend a [IncomingMessage D] True, EvSend a buf True]) (a # as))"
    using e e1 by simp
  have k': "store fs' = store fs" "ID fs' = ID fs" using k k1 by simp_all
  have o': "\<forall>b. b \<notin> set (a # as) \<longrightarrow> peers fs' b = peers fs b" using o o1 by simp
  show ?case using r' e' k' o' by blast
qed

lemma BroadCast_range_append:
  "BroadCast_range D buf fs (xs @ ys) =
     (case BroadCast_range D buf fs xs of
        (Some e, fs') \<Rightarrow> (Some e, fs')
      | (None, fs') \<Rightarrow> BroadCast_range D buf fs' ys)"
  by (induction xs arbitrary: fs) (auto split: option.splits prod.splits)

lemma BroadCast_range_step_fail:
  assumes "peers fs a = Some p" and "tx_left p = Some n" and "n < 2"
  shows "\<exists>fs'. BroadCast_range D buf fs (a # as) = (Some (ErrConn a), fs')
           \<and> events fs' = events fs @
                 (if n = 0 then [EvSend a [IncomingMessage D] False]
                  else [EvSend a [IncomingMessage D] True, EvSend a buf False]) @ [EvLogError]
           \<and> store fs' = store fs \<and> ID fs' = ID fs
           \<and> (\<forall>b. b \<noteq> a \<longrightarrow> peers fs' b = peers fs b)"
proof -
  have "n = 0 \<or> n = Suc 0" using assms(3) by auto
  then show ?thesis
    using assms(1,2) by (auto simp: peer_Send_def emit_def)
qed

lemma BroadCast_range_fail:
  assumes d: "distinct (pre @ a # post)" and acc: "\<forall>b\<in>set pre. accepts fs b 2"
    and p: "peers fs a = Some p" and n: "tx_left p = Some n" "n < 2"
  shows "\<exists>fs'. BroadCast_range D buf fs (pre @ a # post) = (Some (ErrConn a), fs')
           \<and> events fs' = events fs @ concat (map (\<lambda>a. [EvSend a [IncomingMessage D] True, EvSend a buf True]) pre) @
                 (if n = 0 then [EvSend a [IncomingMessage D] False]
                  else [EvSend a [IncomingMessage D] True, EvSend a buf False]) @ [EvLogError]
           \<and> store fs' = store fs
           \<and> (\<forall>b\<in>set post. peers fs' b = peers fs b)"
proof -
  have dp: "distinct pre" and na: "a \<notin> set pre" and dis: "set pre \<inter> set post = {}" and nap: "a \<notin> set post"
    using d by auto
  from BroadCast_range_ok [OF dp acc, of D buf] obtain fs1 where
    r1: "BroadCast_range D buf fs pre = (None, fs1)"
    and e1: "events fs1 = events fs @ concat (map (\<lambda>a. [EvSend a [IncomingMessage D] True, EvSend a buf True]) pre)"
    and k1: "store fs1 = store fs"
    and o1: "\<forall>b. b \<notin> set pre \<longrightarrow> peers fs1 b = peers fs b"
    by blast
  have p1: "peers fs1 a = Some p" using o1 na p by simp
  from BroadCast_range_step_fail [OF p1 n, of D buf post] obtain fs2 where
    r2: "BroadCast_range D buf fs1 (a # post) = (Some (ErrConn a), fs2)"
    and e2: "events fs2 = events fs1 @
                 (if n = 0 then [EvSend a [IncomingMessage D] False]
                  else [EvSend a [IncomingMessage D] True, EvSend a buf False]) @ [EvLogError]"
    and k2: "store fs2 = store fs1"
    and o2: "\<forall>b. b \<noteq> a \<longrightarrow> peers fs2 b = peers fs1 b"
    by blast
  have r: "BroadCast_range D buf fs (pre @ a # post) = (Some (ErrConn a), fs2)"
    by (simp only: BroadCast_range_append r1 r2 prod.case option.case)
  have o: "\<forall>b\<in>set post. peers fs2 b = peers fs b"
  proof
    fix b assume b: "b \<in> set post"
    then have "b \<noteq> a" "b \<notin> set pre" using nap dis by auto
    then show "peers fs2 b = peers fs b" using o1 o2 by simp
  qed
  have e: "events fs2 = events fs @ concat (map (\<lambda>a. [EvSend a [IncomingMessage D] True, EvSend a buf True]) pre) @
                 (if n = 0 then [EvSend a [IncomingMessage D] False]
                  else [EvSend a [IncomingMessage D] True, EvSend a buf False]) @ [EvLogError]"
    using e1 e2 by simp
  have k: "store fs2 = store fs" using k1 k2 by simp
  show ?thesis using r e k o by blast
qed

lemma BroadCast_range_no_peers: "peers fs = Map.empty \<Longrightarrow> BroadCast_range D buf fs as = (None, fs)"
  by (induction as) simp_all

text \<open>
  Claim C4. \<open>BroadCast\<close> takes the bytes \<open>buf\<close> of the envelope from the encoder once,
  before the range. When every registered peer accepts two writes, each of them gets the
  control-frame byte and then \<open>buf\<close>, in the order of the range, and no error is
  returned. When the peers before \<open>a\<close> accept their writes and the connection of \<open>a\<close>
  fails on its first or second write, \<open>BroadCast\<close> returns that error: the trace ends
  with the one failed write to \<open>a\<close> and the log line, nothing is written to the peers
  after \<open>a\<close>, whose connections stay as they were. With no peer registered the call
  returns no error and changes nothing.
\<close>

theorem BroadCast_first_failure_aborts:
  assumes "gob_encode D msg = Inr buf"
  shows "(range_order fs ord \<and> (\<forall>a\<in>set ord. accepts fs a 2) \<longrightarrow>
            (\<exists>fs'. BroadCast D fs ord msg = (None, fs') \<and>
               events fs' = events fs @
                 concat (map (\<lambda>a. [EvSend a [IncomingMessage D] True, EvSend a buf True]) ord)))
       \<and> (range_order fs (pre @ a # post) \<and> (\<forall>b\<in>set pre. accepts fs b 2) \<and>
            peers fs a = Some p \<and> tx_left p = Some n \<and> n < 2 \<longrightarrow>
            (\<exists>fs'. BroadCast D fs (pre @ a # post) msg = (Some (ErrConn a), fs') \<and>
               events fs' = events fs @
                 concat (map (\<lambda>a. [EvSend a [IncomingMessage D] True, EvSend a buf True]) pre) @
                 (if n = 0 then [EvSend a [IncomingMessage D] False]
                  else [EvSend a [IncomingMessage D] True, EvSend a buf False]) @ [EvLogError] \<and>
               (\<forall>b\<in>set post. peers fs' b = peers fs b)))
       \<and> (peers fs = Map.empty \<longrightarrow> BroadCast D fs ord msg = (None, fs))"
proof -
  have ok: "\<exists>fs'. BroadCast D fs ord msg = (None, fs') \<and>
               events fs' = events fs @
                 concat (map (\<lambda>a. [EvSend a [IncomingMessage D] True, EvSend a buf True]) ord)"
    if "range_order fs ord \<and> (\<forall>a\<in>set ord. accepts fs a 2)"
  proof -
    have "distinct ord" "\<forall>a\<in>set ord. accepts fs a 2" using that by (simp_all add: range_order_def)
    from BroadCast_range_ok [OF this, of D buf] show ?thesis
      using assms by (auto simp: BroadCast_def)
  qed
  have fail: "\<exists>fs'. BroadCast D fs (pre @ a # post) msg = (Some (ErrConn a), fs') \<and>
               events fs' = events fs @
                 concat (map (\<lambda>a. [EvSend a [IncomingMessage D] True, EvSend a buf True]) pre) @
                 (if n = 0 then [EvSend a [IncomingMessage D] False]
                  else [EvSend a [IncomingMessage D] True, EvSend a buf False]) @ [EvLogError] \<and>
               (\<forall>b\<in>set post. peers fs' b = peers fs b)"
    if h: "range_order fs (pre @ a # post) \<and> (\<forall>b\<in>set pre. accepts fs b 2) \<and>
            peers fs a = Some p \<and> tx_left p = Some n \<and> n < 2"
  proof -
    have d: "distinct (pre @ a # post)" using h by (simp add: range_order_def)
    have acc: "\<forall>b\<in>set pre. accepts fs b 2" and p: "peers fs a = Some p"
      and n: "tx_left p = Some n" "n < 2" using h by simp_all
    from BroadCast_range_fail [OF d acc p n, of D buf] show ?thesis
      using assms by (auto simp: BroadCast_def)
  qed
  have none: "BroadCast D fs ord msg = (None, fs)" if "peers fs = Map.empty"
    using that assms by (simp add: BroadCast_def BroadCast_range_no_peers)
  show ?thesis using ok fail none by blast
qed

text \<open>
  The statement of C4 at three peers of which the second refuses its first write, at
  one healthy peer, and at an empty registry.
\<close>

theorem BroadCast_first_failure_aborts_witness:
  "fst (BroadCast D0 (node0 [''p1'' \<mapsto> conn [] False None, ''p2'' \<mapsto> conn [] False (Some 0), ''p3'' \<mapsto> conn [] False None])
          [''p1'', ''p2'', ''p3''] (Message (MessageGetFile ''1234'' ''k''))) = Some (ErrConn ''p2'')
   \<and> events (snd (BroadCast D0 (node0 [''p1'' \<mapsto> conn [] False None, ''p2'' \<mapsto> conn [] False (Some 0), ''p3'' \<mapsto> conn [] False None])
          [''p1'', ''p2'', ''p3''] (Message (MessageGetFile ''1234'' ''k''))))
       = [EvSend ''p1'' [1] True, EvSend ''p1'' [7] True, EvSend ''p2'' [1] False, EvLogError]
   \<and> BroadCast D0 (node0 Map.empty) [] (Message (MessageGetFile ''1234'' ''k'')) = (None, node0 Map.empty)
   \<and> fst (BroadCast D0 (node0 [''p1'' \<mapsto> conn [] False (Some 2)]) [''p1''] (Message (MessageGetFile ''1234'' ''k''))) = None
   \<and> events (snd (BroadCast D0 (node0 [''p1'' \<mapsto> conn [] False (Some 2)]) [''p1''] (Message (MessageGetFile ''1234'' ''k''))))
       = [EvSend ''p1'' [1] True, EvSend ''p1'' [7] True]"
proof -
  let ?fs = "node0 [''p1'' \<mapsto> conn [] False None, ''p2'' \<mapsto> conn [] False (Some 0), ''p3'' \<mapsto> conn [] False None]"
  let ?g = "node0 [''p1'' \<mapsto> conn [] False (Some 2)]"
  let ?m = "Message (MessageGetFile ''1234'' ''k'')"
  have enc: "gob_encode D0 ?m = Inr [7]" by (simp add: D0_def)
  have ro: "range_order ?fs ([''p1''] @ ''p2'' # [''p3''])"
    by (auto simp: range_order_def node0_def)
  have acc: "\<forall>b\<in>set [''p1'']. accepts ?fs b 2"
    by (simp add: accepts_def node0_def conn_def)
  have p: "peers ?fs ''p2'' = Some (conn [] False (Some 0))" by (simp add: node0_def)
  have n: "tx_left (conn [] False (Some 0)) = Some 0" "(0::nat) < 2" by (simp_all add: conn_def)
  have ev: "events ?fs = []" "events ?g = []" "IncomingMessage D0 = 1" by (simp_all add: node0_def D0_def)
  have rg: "range_order ?g [''p1'']" "\<forall>a\<in>set [''p1'']. accepts ?g a 2"
    by (auto simp: range_order_def node0_def accepts_def conn_def)
  have e0: "peers (node0 Map.empty) = Map.empty" by (simp add: node0_def)
  from BroadCast_first_failure_aborts [OF enc, where fs = ?fs and pre = "[''p1'']" and a = "''p2''"
      and post = "[''p3'']" and p = "conn [] False (Some 0)" and n = 0] ro acc p n
  obtain fs' where
    f1: "BroadCast D0 ?fs ([''p1''] @ ''p2'' # [''p3'']) ?m = (Some (ErrConn ''p2''), fs')"
    and f2: "events fs' = events ?fs @
                 concat (map (\<lambda>a. [EvSend a [IncomingMessage D0] True, EvSend a [7] True]) [''p1'']) @
                 (if (0::nat) = 0 then [EvSend ''p2'' [IncomingMessage D0] False]
                  else [EvSend ''p2'' [IncomingMessage D0] True, EvSend ''p2'' [7] False]) @ [EvLogError]"
    by blast
  from BroadCast_first_failure_aborts [OF enc, where fs = ?g and ord = "[''p1'']"] rg
  obtain g' where
    g1: "BroadCast D0 ?g [''p1''] ?m = (None, g')"
    and g2: "events g' = events ?g @
                 concat (map (\<lambda>a. [EvSend a [IncomingMessage D0] True, EvSend a [7] True]) [''p1''])"
    by blast
  from BroadCast_first_failure_aborts [OF enc, where fs = "node0 Map.empty" and ord = "[]"] e0
  have z: "BroadCast D0 (node0 Map.empty) [] ?m = (None, node0 Map.empty)"
    by blast
  have c1: "fst (BroadCast D0 ?fs [''p1'', ''p2'', ''p3''] ?m) = Some (ErrConn ''p2'')"
    using f1 by simp
  have c2: "events (snd (BroadCast D0 ?fs [''p1'', ''p2'', ''p3''] ?m))
       = [EvSend ''p1'' [1] True, EvSend ''p1'' [7] True, EvSend ''p2'' [1] False, EvLogError]"
    using f1 f2 ev by simp
  have c3: "fst (BroadCast D0 ?g [''p1''] ?m) = None" using g1 by simp
  have c4: "events (snd (BroadCast D0 ?g [''p1''] ?m)) = [EvSend ''p1'' [1] True, EvSend ''p1'' [7] True]"
    using g1 g2 ev by simp
  show ?thesis using c1 c2 z c3 c4 by blast
qed

subsection \<open>handleMessage\<close>

text \<open>
  Claim C10. A message whose payload is neither a \<open>MessageStoreFile\<close> nor a
  \<open>MessageGetFile\<close> value (a nil payload among them) makes \<open>handleMessage\<close> return
  nil, and the server, its store and its registry included, stays as it was.
\<close>

theorem handleMessage_ignores_unknown:
  "\<not> is_MessageStoreFile (Payload m) \<Longrightarrow> \<not> is_MessageGetFile (Payload m) \<Longrightarrow>
     handleMessage D fs from m = Some (None, fs)"
  by (cases m; cases "Payload m") auto

text \<open>The statement of C10 at the nil payload and at a payload of another type.\<close>

theorem handleMessage_ignores_unknown_witness:
  "handleMessage D0 (node0 Map.empty) ''p'' (Message Nil) = Some (None, node0 Map.empty)
   \<and> handleMessage D0 (node0 Map.empty) ''p'' (Message (OtherValue ''int'')) = Some (None, node0 Map.empty)"
proof -
  have n: "\<not> is_MessageStoreFile (Payload (Message Nil))" "\<not> is_MessageGetFile (Payload (Message Nil))"
    by simp_all
  have o: "\<not> is_MessageStoreFile (Payload (Message (OtherValue ''int'')))"
    "\<not> is_MessageGetFile (Payload (Message (OtherValue ''int'')))"
    by simp_all
  show ?thesis
    using handleMessage_ignores_unknown [OF n, of D0 "node0 Map.empty" "''p''"]
      handleMessage_ignores_unknown [OF o, of D0 "node0 Map.empty" "''p''"]
    by simp
qed

subsection \<open>handleMessageStoreFile\<close>

lemma peer_Read_registered:
  assumes "peers fs a = Some p"
  shows "peer_Read fs a n =
     (if length (rx p) < n \<and> \<not> rx_closed p then None
      else Some (take n (rx p),
                 fs\<lparr>peers := (peers fs)(a \<mapsto> p\<lparr>rx := drop n (rx p)\<rparr>),
                    events := events fs @ (if n = 0 then [] else [EvRecv a (take n (rx p))])\<rparr>))"
proof -
  have triv: "(peers fs)(a \<mapsto> p) = peers fs" using assms by (simp add: map_upd_triv)
  show ?thesis
    using assms by (auto simp: peer_Read_def emit_def triv)
qed

text \<open>A write that the store accepts, from a connection that delivers the bytes or ends.\<close>

lemma store_Write_from_accepted:
  assumes "peers fs a = Some p" and "limit_of n \<le> length (rx p) \<or> rx_closed p"
    and "\<not> wfault (store fs) (ns, key)"
  shows "store_Write_from fs ns key a n =
        Some (Inr (of_nat (length (take (limit_of n) (rx p)))),
              fs\<lparr>store := (store fs)\<lparr>files := (files (store fs))((ns, key) \<mapsto> take (limit_of n) (rx p))\<rparr>,
                 peers := (peers fs)(a \<mapsto> p\<lparr>rx := drop (limit_of n) (rx p)\<rparr>),
                 events := events fs @ (if limit_of n = 0 then [] else [EvRecv a (take (limit_of n) (rx p))])
                             @ [EvStoreWrite ns key (take (limit_of n) (rx p))]\<rparr>)"
  using assms
  by (auto simp: store_Write_from_def peer_Read_registered store_Write_def emit_def)

text \<open>
  Whatever the store does with the reader: when the call returns, no more than the
  limit has been taken from the connection, and nothing else has changed but the store
  and the trace, in which no stream is closed.
\<close>

lemma store_Write_from_shape:
  assumes p: "peers fs a = Some p" and r: "store_Write_from fs ns key a n = Some (res, fs1)"
  shows "ID fs1 = ID fs \<and>
         (\<exists>m. m \<le> limit_of n \<and> peers fs1 = (peers fs)(a \<mapsto> p\<lparr>rx := drop m (rx p)\<rparr>)) \<and>
         (\<exists>evs. events fs1 = events fs @ evs \<and> closed_streams evs = [])"
proof (cases "wfault (store fs) (ns, key)")
  case True
  define m where "m = min (wread (store fs) (ns, key)) (limit_of n)"
  have m: "m \<le> limit_of n" by (simp add: m_def)
  have "peer_Read fs a m \<noteq> None"
    using r True by (auto simp: store_Write_from_def m_def split: option.splits)
  then have "fs1 = fs\<lparr>peers := (peers fs)(a \<mapsto> p\<lparr>rx := drop m (rx p)\<rparr>),
                    events := events fs @ (if m = 0 then [] else [EvRecv a (take m (rx p))])\<rparr>"
    using r True
    by (auto simp: store_Write_from_def m_def [symmetric] peer_Read_registered [OF p]
        split: if_splits)
  then show ?thesis using m by auto
next
  case False
  define m where "m = limit_of n"
  have "peer_Read fs a m \<noteq> None"
    using r False by (auto simp: store_Write_from_def m_def split: option.splits)
  then have "fs1 = fs\<lparr>store := (store fs)\<lparr>files := (files (store fs))((ns, key) \<mapsto> take m (rx p))\<rparr>,
                    peers := (peers fs)(a \<mapsto> p\<lparr>rx := drop m (rx p)\<rparr>),
                    events := events fs @ (if m = 0 then [] else [EvRecv a (take m (rx p))])
                                @ [EvStoreWrite ns key (take m (rx p))]\<rparr>"
    using r False
    by (auto simp: store_Write_from_def m_def [symmetric] peer_Read_registered [OF p]
        store_Write_def emit_def split: if_splits)
  then show ?thesis using m_def by auto
qed

text \<open>
  Claim C5, as the code has it. A \<open>StoreFile\<close> envelope from an address that is not
  registered gives an error and changes nothing. From a registered sender, when the
  store accepts the write, the handler reads the next \<open>Size\<close> bytes of that connection
  when the connection delivers them, all the bytes before the end of the stream when it
  ends earlier, none when \<open>Size \<le> 0\<close>; it writes these bytes under the namespace and
  key of the envelope and then calls \<open>CloseStream\<close>, returning nil. Whatever the store
  does, a handler that returns has taken no more than \<open>Size\<close> bytes from the connection
  of the sender and has left every other connection as it was.
\<close>

theorem handleMessageStoreFile_bounded_read:
  "(peers fs from = None \<longrightarrow>
      handleMessageStoreFile fs from i k n = Some (Some (ErrPeerNotInList from), fs))
   \<and> (peers fs from = Some p \<and> (limit_of n \<le> length (rx p) \<or> rx_closed p) \<and> \<not> wfault (store fs) (i, k) \<longrightarrow>
      handleMessageStoreFile fs from i k n =
        Some (None,
          fs\<lparr>store := (store fs)\<lparr>files := (files (store fs))((i, k) \<mapsto> take (limit_of n) (rx p))\<rparr>,
             peers := (peers fs)(from \<mapsto> p\<lparr>rx := drop (limit_of n) (rx p)\<rparr>),
             events := events fs @ (if limit_of n = 0 then [] else [EvRecv from (take (limit_of n) (rx p))])
                         @ [EvStoreWrite i k (take (limit_of n) (rx p)), EvCloseStream from]\<rparr>))
   \<and> (peers fs from = Some p \<and> handleMessageStoreFile fs from i k n = Some (res, fs') \<longrightarrow>
      (\<exists>m. m \<le> limit_of n \<and> peers fs' = (peers fs)(from \<mapsto> p\<lparr>rx := drop m (rx p)\<rparr>)))"
proof -
  have unreg: "handleMessageStoreFile fs from i k n = Some (Some (ErrPeerNotInList from), fs)"
    if "peers fs from = None"
    using that by (simp add: handleMessageStoreFile_def)
  have ok: "handleMessageStoreFile fs from i k n =
        Some (None,
          fs\<lparr>store := (store fs)\<lparr>files := (files (store fs))((i, k) \<mapsto> take (limit_of n) (rx p))\<rparr>,
             peers := (peers fs)(from \<mapsto> p\<lparr>rx := drop (limit_of n) (rx p)\<rparr>),
             events := events fs @ (if limit_of n = 0 then [] else [EvRecv from (take (limit_of n) (rx p))])
                         @ [EvStoreWrite i k (take (limit_of n) (rx p)), EvCloseStream from]\<rparr>)"
    if h: "peers fs from = Some p \<and> (limit_of n \<le> length (rx p) \<or> rx_closed p) \<and> \<not> wfault (store fs) (i, k)"
  proof -
    have p: "peers fs from = Some p" and av: "limit_of n \<le> length (rx p) \<or> rx_closed p"
      and nw: "\<not> wfault (store fs) (i, k)" using h by simp_all
    show ?thesis
      using p
      by (simp add: handleMessageStoreFile_def store_Write_from_accepted [OF p av nw]
          peer_CloseStream_def emit_def)
  qed
  have cap: "\<exists>m. m \<le> limit_of n \<and> peers fs' = (peers fs)(from \<mapsto> p\<lparr>rx := drop m (rx p)\<rparr>)"
    if h: "peers fs from = Some p \<and> handleMessageStoreFile fs from i k n = Some (res, fs')"
  proof -
    have p: "peers fs from = Some p" using h by simp
    from h obtain r1 fs1 where w: "store_Write_from fs i k from n = Some (r1, fs1)"
      and f: "peers fs' = peers fs1"
      by (auto simp: handleMessageStoreFile_def peer_CloseStream_def emit_def
          split: option.splits sum.splits)
    from store_Write_from_shape [OF p w] show ?thesis using f by auto
  qed
  show ?thesis using unreg ok cap by blast
qed

lemma limit_of_5: "limit_of 5 = 5"
  by (simp add: limit_of_def)

text \<open>
  Where C5 as stated fails: a registered sender announces five bytes, sends two and
  closes the connection. The handler reads the two bytes, stores them under the key and
  returns nil.
\<close>

theorem handleMessageStoreFile_short_stream_counterexample:
  "handleMessageStoreFile (node0 [''p'' \<mapsto> conn [1, 2] True None]) ''p'' ''n'' ''k'' 5 =
     Some (None,
       (node0 [''p'' \<mapsto> conn [] True None])
         \<lparr>store := disk0\<lparr>files := [(''n'', ''k'') \<mapsto> [1, 2]]\<rparr>,
          events := [EvRecv ''p'' [1, 2], EvStoreWrite ''n'' ''k'' [1, 2], EvCloseStream ''p'']\<rparr>)
   \<and> int (length [1, 2 :: byte]) < sint (5 :: int64)"
  by (simp add: handleMessageStoreFile_def store_Write_from_def peer_Read_def store_Write_def
      peer_CloseStream_def emit_def node0_def disk0_def conn_def limit_of_5)

text \<open>
  The amended statement of C5 at an unknown sender, at the sender of the short stream,
  and at a sender that delivers all five bytes and more. At the key that the disk
  refuses before it reads, the handler returns the error of the store at once and the
  connection, silent after two bytes, keeps them.
\<close>

theorem handleMessageStoreFile_bounded_read_witness:
  "handleMessageStoreFile (node0 Map.empty) ''p'' ''n'' ''k'' 5 = Some (Some (ErrPeerNotInList ''p''), node0 Map.empty)
   \<and> handleMessageStoreFile (node0 [''p'' \<mapsto> conn [1, 2] True None]) ''p'' ''n'' ''k'' 5 =
       Some (None,
         (node0 [''p'' \<mapsto> conn [] True None])
           \<lparr>store := disk0\<lparr>files := [(''n'', ''k'') \<mapsto> [1, 2]]\<rparr>,
            events := [EvRecv ''p'' [1, 2], EvStoreWrite ''n'' ''k'' [1, 2], EvCloseStream ''p'']\<rparr>)
   \<and> handleMessageStoreFile (node0 [''p'' \<mapsto> conn [1, 2, 3, 4, 5, 6, 7] False None]) ''p'' ''n'' ''k'' 5 =
       Some (None,
         (node0 [''p'' \<mapsto> conn [6, 7] False None])
           \<lparr>store := disk0\<lparr>files := [(''n'', ''k'') \<mapsto> [1, 2, 3, 4, 5]]\<rparr>,
            events := [EvRecv ''p'' [1, 2, 3, 4, 5], EvStoreWrite ''n'' ''k'' [1, 2, 3, 4, 5], EvCloseStream ''p'']\<rparr>)
   \<and> (\<exists>m. m \<le> limit_of 5 \<and>
         [''p'' \<mapsto> conn [6, 7] False None] =
           [''p'' \<mapsto> (conn [1, 2, 3, 4, 5, 6, 7] False None)\<lparr>rx := drop m [1, 2, 3, 4, 5, 6, 7]\<rparr>])
   \<and> handleMessageStoreFile (node0 [''p'' \<mapsto> conn [1, 2] False None]) ''p'' ''1234'' ''bad'' 5 =
       Some (Some ErrStoreIO, node0 [''p'' \<mapsto> conn [1, 2] False None])"
proof -
  let ?short = "node0 [''p'' \<mapsto> conn [1, 2] True None]"
  let ?long = "node0 [''p'' \<mapsto> conn [1, 2, 3, 4, 5, 6, 7] False None]"
  let ?long' = "(node0 [''p'' \<mapsto> conn [6, 7] False None])
           \<lparr>store := disk0\<lparr>files := [(''n'', ''k'') \<mapsto> [1, 2, 3, 4, 5]]\<rparr>,
            events := [EvRecv ''p'' [1, 2, 3, 4, 5], EvStoreWrite ''n'' ''k'' [1, 2, 3, 4, 5], EvCloseStream ''p'']\<rparr>"
  have c1: "handleMessageStoreFile (node0 Map.empty) ''p'' ''n'' ''k'' 5 = Some (Some (ErrPeerNotInList ''p''), node0 Map.empty)"
    using handleMessageStoreFile_bounded_read [of "node0 Map.empty" "''p''" "''n''" "''k''" 5 "conn [] True None"]
    by (simp add: node0_def)
  have c2: "handleMessageStoreFile ?short ''p'' ''n'' ''k'' 5 =
       Some (None,
         (node0 [''p'' \<mapsto> conn [] True None])
           \<lparr>store := disk0\<lparr>files := [(''n'', ''k'') \<mapsto> [1, 2]]\<rparr>,
            events := [EvRecv ''p'' [1, 2], EvStoreWrite ''n'' ''k'' [1, 2], EvCloseStream ''p'']\<rparr>)"
    using handleMessageStoreFile_bounded_read [of ?short "''p''" "''n''" "''k''" 5 "conn [1, 2] True None"]
    by (simp add: node0_def disk0_def conn_def limit_of_5)
  have c3: "handleMessageStoreFile ?long ''p'' ''n'' ''k'' 5 = Some (None, ?long')"
    using handleMessageStoreFile_bounded_read [of ?long "''p''" "''n''" "''k''" 5 "conn [1, 2, 3, 4, 5, 6, 7] False None"]
    by (simp add: node0_def disk0_def conn_def limit_of_5)
  have pl: "peers ?long ''p'' = Some (conn [1, 2, 3, 4, 5, 6, 7] False None)"
    "peers ?long = [''p'' \<mapsto> conn [1, 2, 3, 4, 5, 6, 7] False None]"
    "peers ?long' = [''p'' \<mapsto> conn [6, 7] False None]"
    "rx (conn [1, 2, 3, 4, 5, 6, 7] False None) = [1, 2, 3, 4, 5, 6, 7]"
    by (simp_all add: node0_def conn_def)
  have c4: "\<exists>m. m \<le> limit_of 5 \<and>
         [''p'' \<mapsto> conn [6, 7] False None] =
           [''p'' \<mapsto> (conn [1, 2, 3, 4, 5, 6, 7] False None)\<lparr>rx := drop m [1, 2, 3, 4, 5, 6, 7]\<rparr>]"
    using handleMessageStoreFile_bounded_read [of ?long "''p''" "''n''" "''k''" 5
        "conn [1, 2, 3, 4, 5, 6, 7] False None" None ?long', THEN conjunct2, THEN conjunct2]
      pl(1) c3
    unfolding pl(2,3,4) by simp
  have c5: "handleMessageStoreFile (node0 [''p'' \<mapsto> conn [1, 2] False None]) ''p'' ''1234'' ''bad'' 5 =
       Some (Some ErrStoreIO, node0 [''p'' \<mapsto> conn [1, 2] False None])"
    by (simp add: handleMessageStoreFile_def store_Write_from_def peer_Read_def
        node0_def disk0_def conn_def)
  show ?thesis using c1 c2 c3 c4 c5 by blast
qed

subsection \<open>handleMessageGetFile\<close>

lemma length_le64: "length (le64 w) = 8"
  by (simp add: le64_def)

lemma byte_split: "ucast (ucast (x :: int64) :: byte) OR push_bit 8 (drop_bit 8 x) = x"
proof (rule bit_word_eqI)
  fix n
  assume n: "n < LENGTH(64)"
  show "bit (ucast (ucast x :: byte) OR push_bit 8 (drop_bit 8 x)) n = bit x n"
  proof (cases "n < 8")
    case True
    then show ?thesis using n by (auto simp: bit_simps)
  next
    case False
    then have "8 + (n - 8) = n" by simp
    then show ?thesis using n False by (auto simp: bit_simps)
  qed
qed

lemma le64_tail:
  "j \<le> 8 \<Longrightarrow>
     foldr (\<lambda>b acc. ucast b OR push_bit 8 acc) (map (\<lambda>i. ucast (drop_bit (8 * i) w) :: byte) [j..<8]) 0
       = drop_bit (8 * j) (w :: int64)"
proof (induction "8 - j" arbitrary: j)
  case 0
  then have "j = 8" by simp
  then show ?case by (simp add: drop_bit_word_beyond)
next
  case (Suc d)
  then have lt: "j < 8" and d: "d = 8 - Suc j" and le: "Suc j \<le> 8" by simp_all
  have up: "[j..<8] = j # [Suc j..<8]" using lt by (simp add: upt_conv_Cons)
  have dd: "drop_bit (8 * Suc j) w = drop_bit 8 (drop_bit (8 * j) w)"
    by (simp add: drop_bit_drop_bit add.commute)
  show ?case
    unfolding up using Suc.hyps(1) [OF d le]
    by (simp only: list.map foldr.simps o_apply dd byte_split)
qed

lemma le64_decode_le64: "le64_decode (le64 w) = w"
  using le64_tail [of 0 w] by (simp add: le64_def le64_decode_def)

lemma chunks_Nil: "chunks n [] = []"
  by (simp add: chunks.simps [of n "[]"])

text \<open>The chunks of a copy, put together, are the file.\<close>

lemma concat_chunks: "0 < n \<Longrightarrow> concat (chunks n xs) = xs"
proof (induction n xs rule: chunks.induct)
  case (1 n xs)
  show ?case
  proof (cases "xs = []")
    case True
    then show ?thesis by (simp add: chunks_Nil)
  next
    case False
    then have "concat (chunks n (drop n xs)) = drop n xs"
      using "1.IH" "1.prems" by simp
    then show ?thesis
      using False "1.prems" by (simp add: chunks.simps [of n xs])
  qed
qed

lemma chunks_one: "xs \<noteq> [] \<Longrightarrow> length xs \<le> n \<Longrightarrow> chunks n xs = [xs]"
proof -
  assume a: "xs \<noteq> []" "length xs \<le> n"
  then have "n \<noteq> 0" by (cases xs) auto
  then show ?thesis
    using a by (simp add: chunks.simps [of n xs] chunks_Nil)
qed

lemma Copy_chunks_accepts:
  assumes "accepts fs a (length cs)"
  shows "\<exists>fs'. Copy_chunks fs a cs = (None, fs') \<and>
           events fs' = events fs @ map (\<lambda>c. EvSend a c True) cs \<and>
           store fs' = store fs \<and> (\<forall>b. b \<noteq> a \<longrightarrow> peers fs' b = peers fs b)"
  using assms
proof (induction cs arbitrary: fs)
  case Nil
  then show ?case by simp
next
  case (Cons c cs)
  have "accepts fs a (Suc (length cs))" using Cons.prems by simp
  from peer_Send_accepts [OF this, of c] obtain fs1 where
    s1: "peer_Send fs a c = (None, fs1)"
    and e1: "events fs1 = events fs @ [EvSend a c True]"
    and k1: "store fs1 = store fs"
    and a1: "accepts fs1 a (length cs)"
    and o1: "\<forall>b. b \<noteq> a \<longrightarrow> peers fs1 b = peers fs b"
    by blast
  from Cons.IH [OF a1] obtain fs' where
    r: "Copy_chunks fs1 a cs = (None, fs')"
    and e: "events fs' = events fs1 @ map (\<lambda>c. EvSend a c True) cs"
    and k: "store fs' = store fs1"
    and o: "\<forall>b. b \<noteq> a \<longrightarrow> peers fs' b = peers fs1 b"
    by blast
  have r': "Copy_chunks fs a (c # cs) = (None, fs')" using s1 r by simp
  have e': "events fs' = events fs @ map (\<lambda>c. EvSend a c True) (c # cs)" using e e1 by simp
  have k': "store fs' = store fs" using k k1 by simp
  have o': "\<forall>b. b \<noteq> a \<longrightarrow> peers fs' b = peers fs b" using o o1 by simp
  show ?case using r' e' k' o' by blast
qed

text \<open>
  Claim C6, as the code has it. When the store lacks the requested key, the
  \<open>GetFile\<close> handler returns an error and the server is as before: nothing is written
  to any connection. When the store has the key with content \<open>d\<close> and the requester
  is a registered peer whose connection takes the writes, the handler writes to that
  connection, in this order, the stream-frame byte, the eight bytes of the little-endian
  \<open>int64\<close> size of \<open>d\<close>, and \<open>d\<close> itself in chunks of 32 KiB (no further write
  for an empty file), returns nil, and touches neither the store nor another connection.
  When the store has the key and the requester is not registered, the handler returns
  an error and nothing is written.
\<close>

theorem handleMessageGetFile_serves:
  "(\<not> store_Has (store s) i k \<longrightarrow>
      handleMessageGetFile D s from i k = (Some (ErrNotOnDisk k), s))
   \<and> (files (store s) (i, k) = Some d \<and> accepts s from (2 + length (chunks 32768 d)) \<longrightarrow>
      (\<exists>s'. handleMessageGetFile D s from i k = (None, s') \<and>
         events s' = events s @
           [EvSend from [IncomingStream D] True, EvSend from (le64 (of_nat (length d))) True] @
           map (\<lambda>c. EvSend from c True) (chunks 32768 d) \<and>
         concat (chunks 32768 d) = d \<and>
         length (le64 (of_nat (length d))) = 8 \<and>
         le64_decode (le64 (of_nat (length d))) = of_nat (length d) \<and>
         store s' = store s \<and> (\<forall>b. b \<noteq> from \<longrightarrow> peers s' b = peers s b)))
   \<and> (files (store s) (i, k) = Some d \<and> peers s from = None \<longrightarrow>
      handleMessageGetFile D s from i k = (Some (ErrPeerNotInMap from), s))"
proof -
  have miss: "handleMessageGetFile D s from i k = (Some (ErrNotOnDisk k), s)"
    if "\<not> store_Has (store s) i k"
    using that by (simp add: handleMessageGetFile_def)
  have unreg: "handleMessageGetFile D s from i k = (Some (ErrPeerNotInMap from), s)"
    if "files (store s) (i, k) = Some d \<and> peers s from = None"
    using that by (simp add: handleMessageGetFile_def store_Has_def store_Read_def)
  have hit: "\<exists>s'. handleMessageGetFile D s from i k = (None, s') \<and>
         events s' = events s @
           [EvSend from [IncomingStream D] True, EvSend from (le64 (of_nat (length d))) True] @
           map (\<lambda>c. EvSend from c True) (chunks 32768 d) \<and>
         concat (chunks 32768 d) = d \<and>
         length (le64 (of_nat (length d))) = 8 \<and>
         le64_decode (le64 (of_nat (length d))) = of_nat (length d) \<and>
         store s' = store s \<and> (\<forall>b. b \<noteq> from \<longrightarrow> peers s' b = peers s b)"
    if h: "files (store s) (i, k) = Some d \<and> accepts s from (2 + length (chunks 32768 d))"
  proof -
    have f: "files (store s) (i, k) = Some d"
      and a3: "accepts s from (Suc (Suc (length (chunks 32768 d))))"
      using h by simp_all
    have reg: "peers s from \<noteq> None" using a3 accepts_registered by blast
    from peer_Send_accepts [OF a3, of "[IncomingStream D]"] obtain s1 where
      r1: "peer_Send s from [IncomingStream D] = (None, s1)"
      and e1: "events s1 = events s @ [EvSend from [IncomingStream D] True]"
      and k1: "store s1 = store s"
      and a2: "accepts s1 from (Suc (length (chunks 32768 d)))"
      and o1: "\<forall>b. b \<noteq> from \<longrightarrow> peers s1 b = peers s b"
      by blast
    from peer_Send_accepts [OF a2, of "le64 (of_nat (length d))"] obtain s2 where
      r2: "peer_Send s1 from (le64 (of_nat (length d))) = (None, s2)"
      and e2: "events s2 = events s1 @ [EvSend from (le64 (of_nat (length d))) True]"
      and k2: "store s2 = store s1"
      and a1: "accepts s2 from (length (chunks 32768 d))"
      and o2: "\<forall>b. b \<noteq> from \<longrightarrow> peers s2 b = peers s1 b"
      by blast
    from Copy_chunks_accepts [OF a1] obtain s3 where
      r3: "Copy_chunks s2 from (chunks 32768 d) = (None, s3)"
      and e3: "events s3 = events s2 @ map (\<lambda>c. EvSend from c True) (chunks 32768 d)"
      and k3: "store s3 = store s2"
      and o3: "\<forall>b. b \<noteq> from \<longrightarrow> peers s3 b = peers s2 b"
      by blast
    have run: "handleMessageGetFile D s from i k = (None, s3)"
      using f reg r1 r2 r3
      by (auto simp: handleMessageGetFile_def store_Has_def store_Read_def Let_def Copy_file_def)
    have e: "events s3 = events s @
           [EvSend from [IncomingStream D] True, EvSend from (le64 (of_nat (length d))) True] @
           map (\<lambda>c. EvSend from c True) (chunks 32768 d)"
      using e1 e2 e3 by simp
    have ks: "store s3 = store s" using k1 k2 k3 by simp
    have os: "\<forall>b. b \<noteq> from \<longrightarrow> peers s3 b = peers s b" using o1 o2 o3 by simp
    have cc: "concat (chunks 32768 d) = d" by (simp add: concat_chunks)
    show ?thesis
    proof (intro exI conjI)
      show "handleMessageGetFile D s from i k = (None, s3)" by (rule run)
      show "events s3 = events s @
           [EvSend from [IncomingStream D] True, EvSend from (le64 (of_nat (length d))) True] @
           map (\<lambda>c. EvSend from c True) (chunks 32768 d)" by (rule e)
      show "concat (chunks 32768 d) = d" by (rule cc)
      show "length (le64 (of_nat (length d))) = 8" by (rule length_le64)
      show "le64_decode (le64 (of_nat (length d))) = of_nat (length d)" by (rule le64_decode_le64)
      show "store s3 = store s" by (rule ks)
      show "\<forall>b. b \<noteq> from \<longrightarrow> peers s3 b = peers s b" by (rule os)
    qed
  qed
  show ?thesis using miss hit unreg by blast
qed

lemma le64_3: "le64 3 = [3, 0, 0, 0, 0, 0, 0, 0]"
  by (simp add: le64_def upt_rec drop_bit_eq_div)

lemma chunks_987: "chunks 32768 [9, 8, 7 :: byte] = [[9, 8, 7]]"
  by (rule chunks_one) simp_all

text \<open>
  Where C6 as stated fails: the store has the key, and the requester is not registered,
  or its connection refuses the writes. In the first case the handler returns an error
  and writes nothing; in the second the three writes are refused, the errors of the
  first two are dropped, and the handler returns the error of the content.
\<close>

theorem handleMessageGetFile_requester_counterexample:
  "handleMessageGetFile D0 ((node0 Map.empty)\<lparr>store := disk0\<lparr>files := [(''n'', ''k'') \<mapsto> [9, 8, 7]]\<rparr>\<rparr>) ''p'' ''n'' ''k''
       = (Some (ErrPeerNotInMap ''p''), (node0 Map.empty)\<lparr>store := disk0\<lparr>files := [(''n'', ''k'') \<mapsto> [9, 8, 7]]\<rparr>\<rparr>)
   \<and> store_Has (store ((node0 Map.empty)\<lparr>store := disk0\<lparr>files := [(''n'', ''k'') \<mapsto> [9, 8, 7]]\<rparr>\<rparr>)) ''n'' ''k''
   \<and> handleMessageGetFile D0
         ((node0 [''p'' \<mapsto> conn [] False (Some 0)])\<lparr>store := disk0\<lparr>files := [(''n'', ''k'') \<mapsto> [9, 8, 7]]\<rparr>\<rparr>)
         ''p'' ''n'' ''k''
       = (Some (ErrConn ''p''),
          (node0 [''p'' \<mapsto> conn [] False (Some 0)])
            \<lparr>store := disk0\<lparr>files := [(''n'', ''k'') \<mapsto> [9, 8, 7]]\<rparr>,
             events := [EvSend ''p'' [2] False, EvSend ''p'' [3, 0, 0, 0, 0, 0, 0, 0] False,
                        EvSend ''p'' [9, 8, 7] False]\<rparr>)"
  by (simp add: handleMessageGetFile_def store_Has_def store_Read_def Copy_file_def chunks_987
      peer_Send_def emit_def node0_def disk0_def conn_def D0_def le64_3 Let_def)

text \<open>
  The amended statement of C6 at a server that holds three bytes under the key and has
  the requester registered, at a server without the key, and at a requester that is not
  registered.
\<close>

theorem handleMessageGetFile_serves_witness:
  "fst (handleMessageGetFile D0
          ((node0 [''p'' \<mapsto> conn [] False None])\<lparr>store := disk0\<lparr>files := [(''n'', ''k'') \<mapsto> [9, 8, 7]]\<rparr>\<rparr>)
          ''p'' ''n'' ''k'') = None
   \<and> events (snd (handleMessageGetFile D0
          ((node0 [''p'' \<mapsto> conn [] False None])\<lparr>store := disk0\<lparr>files := [(''n'', ''k'') \<mapsto> [9, 8, 7]]\<rparr>\<rparr>)
          ''p'' ''n'' ''k''))
       = [EvSend ''p'' [2] True, EvSend ''p'' [3, 0, 0, 0, 0, 0, 0, 0] True, EvSend ''p'' [9, 8, 7] True]
   \<and> handleMessageGetFile D0 (node0 [''p'' \<mapsto> conn [] False None]) ''p'' ''n'' ''k''
       = (Some (ErrNotOnDisk ''k''), node0 [''p'' \<mapsto> conn [] False None])
   \<and> handleMessageGetFile D0 ((node0 Map.empty)\<lparr>store := disk0\<lparr>files := [(''n'', ''k'') \<mapsto> [9, 8, 7]]\<rparr>\<rparr>) ''p'' ''n'' ''k''
       = (Some (ErrPeerNotInMap ''p''), (node0 Map.empty)\<lparr>store := disk0\<lparr>files := [(''n'', ''k'') \<mapsto> [9, 8, 7]]\<rparr>\<rparr>)"
proof -
  let ?s = "(node0 [''p'' \<mapsto> conn [] False None])\<lparr>store := disk0\<lparr>files := [(''n'', ''k'') \<mapsto> [9, 8, 7]]\<rparr>\<rparr>"
  let ?u = "(node0 Map.empty)\<lparr>store := disk0\<lparr>files := [(''n'', ''k'') \<mapsto> [9, 8, 7]]\<rparr>\<rparr>"
  let ?e = "node0 [''p'' \<mapsto> conn [] False None]"
  have f: "files (store ?s) (''n'', ''k'') = Some [9, 8, 7]"
    "accepts ?s ''p'' (2 + length (chunks 32768 [9, 8, 7 :: byte]))" "events ?s = []"
    "IncomingStream D0 = 2"
    by (simp_all add: node0_def accepts_def conn_def D0_def)
  from handleMessageGetFile_serves [of ?s "''n''" "''k''" D0 "''p''" "[9, 8, 7]"] f(1,2)
  obtain s' where r: "handleMessageGetFile D0 ?s ''p'' ''n'' ''k'' = (None, s')"
    and e: "events s' = events ?s @
           [EvSend ''p'' [IncomingStream D0] True, EvSend ''p'' (le64 (of_nat (length [9, 8, 7 :: byte]))) True] @
           map (\<lambda>c. EvSend ''p'' c True) (chunks 32768 [9, 8, 7])"
    by blast
  have c1: "fst (handleMessageGetFile D0 ?s ''p'' ''n'' ''k'') = None" using r by simp
  have c2: "events (snd (handleMessageGetFile D0 ?s ''p'' ''n'' ''k''))
       = [EvSend ''p'' [2] True, EvSend ''p'' [3, 0, 0, 0, 0, 0, 0, 0] True, EvSend ''p'' [9, 8, 7] True]"
    using r e f(3,4) by (simp add: le64_3 chunks_987)
  have m: "\<not> store_Has (store ?e) ''n'' ''k''" by (simp add: store_Has_def node0_def disk0_def)
  have c3: "handleMessageGetFile D0 ?e ''p'' ''n'' ''k'' = (Some (ErrNotOnDisk ''k''), ?e)"
    using handleMessageGetFile_serves [of ?e "''n''" "''k''" D0 "''p''" "[]"] m by blast
  have u: "files (store ?u) (''n'', ''k'') = Some [9, 8, 7]" "peers ?u ''p'' = None"
    by (simp_all add: node0_def)
  have c4: "handleMessageGetFile D0 ?u ''p'' ''n'' ''k'' = (Some (ErrPeerNotInMap ''p''), ?u)"
    using handleMessageGetFile_serves [of ?u "''n''" "''k''" D0 "''p''" "[9, 8, 7]"] u by blast
  show ?thesis using c1 c2 c3 c4 by blast
qed

subsection \<open>Get\<close>
















subsection \<open>The stream of Store\<close>

lemma peer_Send_None:
  assumes "peer_Send fs b bs = (None, fs1)"
  shows "accepts fs b 1 \<and> (\<forall>a. a \<noteq> b \<longrightarrow> peers fs1 a = peers fs a)"
  using assms
  by (auto simp: peer_Send_def accepts_def emit_def split: option.splits nat.splits)

lemma peer_Send_Some:
  assumes "peer_Send fs b bs = (Some e, fs1)"
  shows "\<not> accepts fs1 b 1"
  using assms
  by (auto simp: peer_Send_def accepts_def emit_def split: option.splits nat.splits)

lemma MultiWriter_Write_refused:
  assumes "a \<in> set ws" and "\<not> accepts fs a 1"
  shows "fst (MultiWriter_Write fs ws bs) \<noteq> None"
  using assms
proof (induction ws arbitrary: fs)
  case Nil
  then show ?case by simp
next
  case (Cons b ws)
  obtain r fs1 where s: "peer_Send fs b bs = (r, fs1)" by force
  show ?case
  proof (cases r)
    case (Some e)
    then show ?thesis using s by simp
  next
    case None
    then have acc: "accepts fs b 1" and o: "\<forall>a. a \<noteq> b \<longrightarrow> peers fs1 a = peers fs a"
      using peer_Send_None s by blast+
    have ab: "a \<noteq> b" using acc Cons.prems(2) by auto
    then have "a \<in> set ws" using Cons.prems(1) by simp
    moreover have "\<not> accepts fs1 a 1" using o ab Cons.prems(2) by (simp add: accepts_def)
    ultimately have "fst (MultiWriter_Write fs1 ws bs) \<noteq> None" by (rule Cons.IH)
    then show ?thesis using s None by simp
  qed
qed

lemma MultiWriter_Write_failed:
  assumes "fst (MultiWriter_Write fs ws bs) \<noteq> None"
  shows "\<exists>a\<in>set ws. \<not> accepts (snd (MultiWriter_Write fs ws bs)) a 1"
  using assms
proof (induction ws arbitrary: fs)
  case Nil
  then show ?case by simp
next
  case (Cons b ws)
  obtain r fs1 where s: "peer_Send fs b bs = (r, fs1)" by force
  show ?case
  proof (cases r)
    case (Some e)
    then have "\<not> accepts fs1 b 1" using peer_Send_Some s by blast
    then show ?thesis using s Some by simp
  next
    case None
    then have "fst (MultiWriter_Write fs1 ws bs) \<noteq> None" using Cons.prems s by simp
    from Cons.IH [OF this] show ?thesis using s None by simp
  qed
qed

text \<open>
  For a file that is not empty, a failing write of the stream is reported: whether the
  stream byte or the content is refused by some connection, \<open>Store\<close> returns an error,
  and the store keeps the content.
\<close>

lemma Store_stream_failure_reported:
  assumes ne: "r \<noteq> []" and nw: "\<not> wfault (store fs) (ID fs, key)"
    and b: "BroadCast D
              (emit (EvStoreWrite (ID fs) key r)
                 (fs\<lparr>store := (store fs)\<lparr>files := (files (store fs))((ID fs, key) \<mapsto> r)\<rparr>\<rparr>))
              ord1 (Message (MessageStoreFile (ID fs) key (of_nat (length r)))) = (None, fs2)"
    and ws: "ws = filter (\<lambda>a. peers fs2 a \<noteq> None) ord2"
    and f: "fst (MultiWriter_Write fs2 ws [IncomingStream D]) \<noteq> None \<or>
            fst (MultiWriter_Write (snd (MultiWriter_Write fs2 ws [IncomingStream D])) ws r) \<noteq> None"
  shows "fst (Store D fs ord1 ord2 key r) \<noteq> None \<and>
         files (store (snd (Store D fs ord1 ord2 key r))) (ID fs, key) = Some r"
proof -
  define fs3 where "fs3 = snd (MultiWriter_Write fs2 ws [IncomingStream D])"
  have c: "fst (MultiWriter_Write fs3 ws r) \<noteq> None"
  proof (cases "fst (MultiWriter_Write fs2 ws [IncomingStream D]) \<noteq> None")
    case True
    from MultiWriter_Write_failed [OF True] obtain a where
      "a \<in> set ws" "\<not> accepts fs3 a 1" unfolding fs3_def by blast
    then show ?thesis by (rule MultiWriter_Write_refused)
  next
    case False
    then show ?thesis using f unfolding fs3_def by simp
  qed
  obtain r4 fs4 where m: "MultiWriter_Write fs3 ws r = (r4, fs4)" by force
  then obtain e where r4: "r4 = Some e" using c by auto
  have S: "Store D fs ord1 ord2 key r = (Some e, emit EvLogError fs4)"
    using nw b m r4 ne unfolding fs3_def ws
    by (simp add: Store_def store_Write_def Let_def Copy_buffer_def)
  from Store_after_write [OF nw, of r D ord1 ord2]
  have "files (store (snd (Store D fs ord1 ord2 key r))) (ID fs, key) = Some r"
    by (simp add: net_step_def emit_def)
  then show ?thesis using S by simp
qed

text \<open>
  Claim C8 (the code departs from it). A zero-byte file is stored on a server whose only
  peer takes the two writes of the broadcast and no more: the write of the stream byte
  to the peer fails, its error is dropped, nothing is left to copy, and \<open>Store\<close> returns
  nil.
\<close>

theorem Store_empty_file_stream_error_dropped:
  "Store D0 (node0 [''p'' \<mapsto> conn [] False (Some 2)]) [''p''] [''p''] ''k'' [] =
     (None,
      (node0 [''p'' \<mapsto> conn [] False (Some 0)])
        \<lparr>store := disk0\<lparr>files := [(''1234'', ''k'') \<mapsto> []]\<rparr>,
         events := [EvStoreWrite ''1234'' ''k'' [], EvSend ''p'' [1] True, EvSend ''p'' [7] True,
                    EvSend ''p'' [2] False]\<rparr>)"
  by (simp add: eval_defs)

subsection \<open>ReadLoop\<close>

text \<open>
  A frame that gob rejects leaving the payload nil is logged and has no other effect,
  and the loop goes on with the next input.
\<close>

lemma ReadLoop_undecoded_nil:
  assumes "gob_decode D bs = (Some e, Message Nil)"
  shows "ReadLoop D fs (Frame from bs # ins) = ReadLoop D (emit EvLogError fs) ins"
  using assms by (simp add: ReadLoop_frame_def)

text \<open>
  Claim C9 (the code departs from it). \<open>ReadLoop\<close> logs the error of \<open>Decode\<close> and
  calls \<open>handleMessage\<close> all the same, with what \<open>Decode\<close> has left in the message.
  For the frame \<open>[1]\<close> that is a \<open>MessageStoreFile\<close> payload: two bytes are read from
  the sender's connection and written to the store, and the stream is closed.
\<close>

theorem ReadLoop_handles_undecoded_frame:
  "ReadLoop D0 (node0 [''p'' \<mapsto> conn [5, 6, 7] False None]) [Frame ''p'' [1]] =
     Some (False,
       (node0 [''p'' \<mapsto> conn [7] False None])
         \<lparr>store := disk0\<lparr>files := [(''n'', ''k'') \<mapsto> [5, 6]]\<rparr>,
          events := [EvLogError, EvRecv ''p'' [5, 6], EvStoreWrite ''n'' ''k'' [5, 6],
                     EvCloseStream ''p'']\<rparr>)
   \<and> gob_decode D0 [1] = (Some ErrGob, Message (MessageStoreFile ''n'' ''k'' 2))"
  by (simp add: ReadLoop_frame_def handleMessageStoreFile_def store_Write_from_def peer_Read_def
      store_Write_def peer_CloseStream_def emit_def node0_def disk0_def conn_def D0_def limit_of_def)

end
